theory Spec2Isabelle
  imports Complex_Main
begin

section \<open>Time-series bracket search: \<open>findTime\<close>\<close>

text \<open>
  An \<open>instant\<close> carries a scalar time value and a display name. Scalars are
  idealised as real numbers, labels (the signed index type of the library) as
  integers.
\<close>

record instant =
  instant_value :: real
  instant_name :: string

text \<open>
  The scanning loop of \<open>findTime\<close>:
  \<^verbatim>\<open>
    for (label i = startSampleTime+1; i < times.size(); i++)
    {
        if (times[i].value() > timeVal) { break; }
        else { lo = i; }
    }
  \<close>
  The function takes the loop counter \<open>i\<close> and the current \<open>lo\<close> and returns the
  final \<open>lo\<close>. The list access \<open>times[i]\<close> is unchecked in the source; a read
  at a negative index is outside the list and is modelled as \<open>None\<close>. (The loop
  condition excludes indices at or beyond the size.)
\<close>

function scanTimes :: "instant list \<Rightarrow> real \<Rightarrow> int \<Rightarrow> int \<Rightarrow> int option" where
  "scanTimes tms timeVal i lo =
     (if i < int (length tms) then
        (if i < 0 then None
         else if instant_value (tms ! nat i) > timeVal then Some lo
         else scanTimes tms timeVal (i + 1) i)
      else Some lo)"
  by pat_completeness auto
termination
  by (relation "measure (\<lambda>(tms, timeVal, i, lo). nat (int (length tms) - i))") auto

declare scanTimes.simps [simp del]

text \<open>
  \<open>findTime\<close> returns its boolean result together with the two reference
  parameters \<open>lo\<close> and \<open>hi\<close>; \<open>-1\<close> is the "none" value of an index. The debug
  output does not influence the result and is left out. (The list \<open>times\<close> of
  the source is written \<open>tms\<close>, since \<open>times\<close> is the name of multiplication.)
\<close>

definition findTime :: "instant list \<Rightarrow> int \<Rightarrow> real \<Rightarrow> (bool \<times> int \<times> int) option" where
  "findTime tms startSampleTime timeVal =
     (case scanTimes tms timeVal (startSampleTime + 1) startSampleTime of
        None \<Rightarrow> None
      | Some lo \<Rightarrow>
          if lo = - 1 then Some (False, lo, - 1)
          else Some (True, lo, if lo < int (length tms) - 1 then lo + 1 else - 1))"

text \<open>A series given by its time values alone, with empty names.\<close>

definition series :: "real list \<Rightarrow> instant list" where
  "series vs = map (\<lambda>v. \<lparr>instant_value = v, instant_name = ''''\<rparr>) vs"

definition ascending :: "instant list \<Rightarrow> bool" where
  "ascending tms = sorted (map instant_value tms)"

text \<open>
  The caller of \<open>findTime\<close> keeps the search hint: each call starts from the \<open>lo\<close>
  that the previous call returned. \<open>findTimeChain\<close> runs such a sequence of calls
  for a list of query values and collects the results; it stops at a call that
  reads outside the list.
\<close>

fun findTimeChain :: "instant list \<Rightarrow> int \<Rightarrow> real list \<Rightarrow> (bool \<times> int \<times> int) option list" where
  "findTimeChain tms hint [] = []"
| "findTimeChain tms hint (v # vs) =
     (case findTime tms hint v of
        None \<Rightarrow> [None]
      | Some (found, lo, hi) \<Rightarrow> Some (found, lo, hi) # findTimeChain tms lo vs)"

section \<open>Vectors and scalars\<close>

text \<open>
  A \<open>vector\<close> (and a \<open>point\<close>) has three scalar components. The operations are
  those of the library's vector class: difference, scaling, inner product (\<open>&\<close>
  in the source), cross product (\<open>^\<close>) and magnitude.

  Scalars are idealised as real numbers. The source computes in double
  precision, where every operation rounds, squares of components beyond about
  \<open>2^512\<close> overflow to infinity and squares of components below about \<open>2^-537\<close>
  underflow to zero. None of this is modelled: \<open>mag\<close> is the exact norm, so that
  \<open>mag v = 0\<close> holds for the zero vector only. What is proved below for all
  points describes the code where its arithmetic is exact; the evaluations at
  given points use small integer coordinates, on which every operation of the
  source is exact.
\<close>

datatype vector = Vector (cmptX: real) (cmptY: real) (cmptZ: real)

definition zeroV :: vector where
  "zeroV = Vector 0 0 0"

fun minusV :: "vector \<Rightarrow> vector \<Rightarrow> vector" where
  "minusV (Vector a b c) (Vector a' b' c') = Vector (a - a') (b - b') (c - c')"

fun plusV :: "vector \<Rightarrow> vector \<Rightarrow> vector" where
  "plusV (Vector a b c) (Vector a' b' c') = Vector (a + a') (b + b') (c + c')"

fun scaleV :: "real \<Rightarrow> vector \<Rightarrow> vector" where
  "scaleV s (Vector a b c) = Vector (s * a) (s * b) (s * c)"

fun dotV :: "vector \<Rightarrow> vector \<Rightarrow> real" where
  "dotV (Vector a b c) (Vector a' b' c') = a * a' + b * b' + c * c'"

fun crossV :: "vector \<Rightarrow> vector \<Rightarrow> vector" where
  "crossV (Vector a b c) (Vector a' b' c') =
     Vector (b * c' - c * b') (c * a' - a * c') (a * b' - b * a')"

definition mag :: "vector \<Rightarrow> real" where
  "mag v = sqrt (dotV v v)"

text \<open>
  The only operation of \<open>calcCoordinateSystem\<close> that leaves the real numbers is
  the quotient of a vector by its own magnitude when that magnitude is zero: the
  vector is then the zero vector and every component is \<open>0/0\<close>, which the
  arithmetic of the machine evaluates to "not a number" (floating-point
  exceptions are taken to be untrapped, as the language has them). A computed
  vector is therefore either finite or \<open>NaNV\<close>, the vector of three NaNs, and a
  computed scalar is \<open>Some\<close> real number or \<open>None\<close> for NaN. NaN propagates
  through arithmetic, and every comparison with NaN is false.

  \<open>divV\<close> yields \<open>NaNV\<close> exactly when the exact magnitude is zero. In the source
  a magnitude that is zero in exact arithmetic may be computed as rounding
  noise, and the quotient is then a finite vector; this happens for colinear
  points whose offsets are not represented exactly along their line.
\<close>

datatype fvector = Fin vector | NaNV

definition divV :: "vector \<Rightarrow> real \<Rightarrow> fvector" where
  \<comment> \<open>\<open>v / s\<close>; used with \<open>s = mag v\<close> only, where \<open>s = 0\<close> forces \<open>v\<close> to be zero\<close>
  "divV v s = (if s = 0 then NaNV else Fin (scaleV (1 / s) v))"

text \<open>
  \<open>GREAT\<close> is the library's constant for a large scalar, declared with the scalar
  type: \<open>1.0e+15\<close> in double precision (\<open>1.0e+6\<close> in single precision). The
  properties below depend only on its being positive.
\<close>

definition GREAT :: real where
  "GREAT = 1000000000000000"

section \<open>Deriving the coordinate frame: \<open>calcCoordinateSystem\<close>\<close>

text \<open>
  The two fatal errors of \<open>calcCoordinateSystem\<close>: "Only \<open>n\<close> provided. Need at
  least three non-colinear points to be able to interpolate." and "Cannot find
  points that make valid normal. ... Need at least three points which are not in
  a line." A fatal error ends the program.
\<close>

datatype fatalError = InsufficientPoints nat | DegenerateGeometry

text \<open>
  The coordinate system returned is built from the name \<open>reference\<close>, the origin,
  the normal and the direction of the first axis; the record keeps these
  arguments.
\<close>

record coordinateSystem =
  origin :: vector
  normal :: fvector
  axis :: fvector

text \<open>
  First loop: the point furthest away from \<open>p0\<close>.
  \<^verbatim>\<open>
    for (label i = 1; i < points.size(); i++)
    {
        const vector d = points[i] - p0;
        scalar magD = mag(d);
        if (magD > maxDist) { e1 = d/magD; index1 = i; maxDist = magD; }
    }
  \<close>
  The loop state is \<open>(e1, index1, maxDist)\<close>.
\<close>

function furthest ::
  "vector list \<Rightarrow> vector \<Rightarrow> int \<Rightarrow> fvector \<times> int \<times> real \<Rightarrow> fvector \<times> int \<times> real" where
  "furthest points p0 i (e1, index1, maxDist) =
     (if 1 \<le> i \<and> i < int (length points) then
        (let d = minusV (points ! nat i) p0;
             magD = mag d
         in if magD > maxDist then furthest points p0 (i + 1) (divV d magD, i, magD)
            else furthest points p0 (i + 1) (e1, index1, maxDist))
      else (e1, index1, maxDist))"
  by pat_completeness auto
termination
  by (relation "measure (\<lambda>(points, p0, i, st). nat (int (length points) - i))") auto

declare furthest.simps [simp del]

text \<open>
  The part of an offset \<open>d\<close> orthogonal to \<open>e1\<close>, \<open>e2 = d - (d & e1)*e1\<close>, and its
  magnitude, as computed scalars.
\<close>

definition magE2 :: "fvector \<Rightarrow> vector \<Rightarrow> real option" where
  "magE2 e1 d =
     (case e1 of
        NaNV \<Rightarrow> None
      | Fin e \<Rightarrow> Some (mag (minusV d (scaleV (dotV d e) e))))"

text \<open>
  Second loop: the point furthest away from the line through \<open>p0\<close> and \<open>p1\<close>.
  \<^verbatim>\<open>
    for (label i = 1; i < points.size(); i++)
    {
        if (i != index1)
        {
            const point& p2 = points[i];
            vector e2(p2 - p0);
            e2 -= (e2&e1)*e1;
            scalar magE2 = mag(e2);
            if (magE2 > maxDist) { index2 = i; maxDist = magE2; }
        }
    }
  \<close>
  The loop state is \<open>(index2, maxDist)\<close>. When \<open>magE2\<close> is NaN the comparison
  \<open>magE2 > maxDist\<close> is false and the state stays as it is. In both loops the
  counter starts at \<open>1\<close>; the guard \<open>1 \<le> i\<close> of the model records that.
\<close>

function furthestFromLine ::
  "vector list \<Rightarrow> vector \<Rightarrow> fvector \<Rightarrow> int \<Rightarrow> int \<Rightarrow> int \<times> real \<Rightarrow> int \<times> real" where
  "furthestFromLine points p0 e1 index1 i (index2, maxDist) =
     (if 1 \<le> i \<and> i < int (length points) then
        (if i \<noteq> index1 then
           (case magE2 e1 (minusV (points ! nat i) p0) of
              None \<Rightarrow> furthestFromLine points p0 e1 index1 (i + 1) (index2, maxDist)
            | Some m \<Rightarrow>
                if m > maxDist then furthestFromLine points p0 e1 index1 (i + 1) (i, m)
                else furthestFromLine points p0 e1 index1 (i + 1) (index2, maxDist))
         else furthestFromLine points p0 e1 index1 (i + 1) (index2, maxDist))
      else (index2, maxDist))"
  by pat_completeness auto
termination
  by (relation "measure (\<lambda>(points, p0, e1, index1, i, st). nat (int (length points) - i))") auto

declare furthestFromLine.simps [simp del]

text \<open>
  The normal: \<open>n = e1 ^ (points[index2] - p0); n /= mag(n)\<close>.
\<close>

definition calcNormal :: "fvector \<Rightarrow> vector \<Rightarrow> fvector" where
  "calcNormal e1 d =
     (case e1 of
        NaNV \<Rightarrow> NaNV
      | Fin e \<Rightarrow> (let n = crossV e d in divV n (mag n)))"

text \<open>
  \<open>calcCoordinateSystem\<close>. The variable \<open>e1\<close> is declared without a value; the
  first loop assigns it in its first iteration whenever there are at least two
  points, so the initial value \<open>NaNV\<close> given to it here is never read.
\<close>

definition calcCoordinateSystem :: "vector list \<Rightarrow> fatalError + coordinateSystem" where
  "calcCoordinateSystem points =
     (if length points < 3 then Inl (InsufficientPoints (length points))
      else
        (let p0 = points ! 0;
             (e1, index1, maxDist) = furthest points p0 1 (NaNV, - 1, - GREAT);
             (index2, maxDist') = furthestFromLine points p0 e1 index1 1 (- 1, - GREAT)
         in if index2 = - 1 then Inl DegenerateGeometry
            else Inr \<lparr>origin = p0,
                      normal = calcNormal e1 (minusV (points ! nat index2) p0),
                      axis = e1\<rparr>))"

section \<open>The weight engine: \<open>calcWeights\<close> and the constructors\<close>

text \<open>
  \<open>calcWeights\<close> uses operations of the library that are defined in other
  files: the conversion to local coordinates of a coordinate system, the
  bounding box of a point field (with its reduction over the processors), the
  random-number generator \<open>Random\<close> and its \<open>position\<close> within a box, the
  triangulation \<open>delaunay2D\<close> and \<open>calcInterpolationWeights\<close>. They are
  parameters of the model, collected in a record; \<open>'g\<close> is the state of the
  generator and \<open>'s\<close> the type of triangulated surfaces. Each is taken to be a
  function of its arguments.
\<close>

type_synonym vector2D = "real \<times> real"

record ('g, 's) library =
  localPosition :: "coordinateSystem \<Rightarrow> vector list \<Rightarrow> vector list"
  boundBox :: "vector list \<Rightarrow> vector \<times> vector"
  Random :: "int \<Rightarrow> 'g"
  position :: "'g \<Rightarrow> vector \<Rightarrow> vector \<Rightarrow> vector \<times> 'g"
  delaunay2D :: "vector2D list \<Rightarrow> 's"
  calcInterpolationWeights ::
    "'s \<Rightarrow> vector list \<Rightarrow> (int \<times> int \<times> int) list \<times> (real \<times> real \<times> real) list"

text \<open>
  The perturbation loop
  \<^verbatim>\<open>
    forAll(localVertices, i)
    {
        localVertices[i] +=
            perturb_*(rndGen.position(bb.min(), bb.max())-bbMid);
    }
  \<close>
  draws one position per vertex, in the order of the vertices, and threads the
  state of the generator.
\<close>

fun perturbVertices ::
  "('g, 's) library \<Rightarrow> real \<Rightarrow> vector \<Rightarrow> vector \<Rightarrow> vector \<Rightarrow> 'g \<Rightarrow> vector list
     \<Rightarrow> vector list \<times> 'g" where
  "perturbVertices lib perturb bbMin bbMax bbMid rndGen [] = ([], rndGen)"
| "perturbVertices lib perturb bbMin bbMax bbMid rndGen (v # vs) =
     (let (r, rndGen') = position lib rndGen bbMin bbMax;
          v' = plusV v (scaleV perturb (minusV r bbMid));
          (vs', rndGen'') = perturbVertices lib perturb bbMin bbMax bbMid rndGen' vs
      in (v' # vs', rndGen''))"

text \<open>
  The first part of \<open>calcWeights\<close>: the local positions of the source points,
  their bounding box and its midpoint \<open>0.5*(min + max)\<close>, the generator
  constructed by \<open>Random rndGen(123456)\<close>, and the perturbed vertices. The result
  is the perturbed vertices and the state in which the generator is left.
\<close>

definition perturbedVertices ::
  "('g, 's) library \<Rightarrow> real \<Rightarrow> coordinateSystem \<Rightarrow> vector list \<Rightarrow> vector list \<times> 'g" where
  "perturbedVertices lib perturb referenceCS sourcePoints =
     (let localVertices = localPosition lib referenceCS sourcePoints;
          (bbMin, bbMax) = boundBox lib localVertices;
          bbMid = scaleV (1 / 2) (plusV bbMin bbMax);
          rndGen = Random lib 123456
      in perturbVertices lib perturb bbMin bbMax bbMid rndGen localVertices)"

text \<open>
  \<open>calcWeights\<close> fills the members \<open>nearestVertex_\<close> and \<open>nearestVertexWeight_\<close>;
  the model returns them, with the state of the generator.
\<close>

definition calcWeights ::
  "('g, 's) library \<Rightarrow> real \<Rightarrow> coordinateSystem \<Rightarrow> vector list \<Rightarrow> vector list
     \<Rightarrow> ((int \<times> int \<times> int) list \<times> (real \<times> real \<times> real) list) \<times> 'g" where
  "calcWeights lib perturb referenceCS sourcePoints destPoints =
     (let (localVertices, rndGen) = perturbedVertices lib perturb referenceCS sourcePoints;
          localVertices2D = map (\<lambda>v. (cmptX v, cmptY v)) localVertices;
          s = delaunay2D lib localVertices2D;
          localFaceCentres = localPosition lib referenceCS destPoints
      in (calcInterpolationWeights lib s localFaceCentres, rndGen))"

text \<open>
  The constructed object. Its members \<open>perturb_\<close>, \<open>referenceCS_\<close>, \<open>nPoints_\<close>,
  \<open>nearestVertex_\<close> and \<open>nearestVertexWeight_\<close> are the fields of the record (a
  name cannot end in an underscore here).
\<close>

record engine =
  enginePerturb :: real
  engineReferenceCS :: coordinateSystem
  engineNPoints :: nat
  nearestVertex :: "(int \<times> int \<times> int) list"
  nearestVertexWeight :: "(real \<times> real \<times> real) list"

text \<open>
  The two constructors. The first derives the coordinate system from the source
  points, the second is given one. A construction is a step of the program: it
  starts in some state \<open>g\<close> of the random-number generator, left there by whatever
  ran before, and leaves the generator in a new state. A fatal error ends the
  program before \<open>calcWeights\<close> is entered.
\<close>

definition pointToPointPlanarInterpolation ::
  "('g, 's) library \<Rightarrow> vector list \<Rightarrow> vector list \<Rightarrow> real \<Rightarrow> 'g \<Rightarrow> (fatalError + engine) \<times> 'g" where
  "pointToPointPlanarInterpolation lib sourcePoints destPoints perturb g =
     (case calcCoordinateSystem sourcePoints of
        Inl err \<Rightarrow> (Inl err, g)
      | Inr cs \<Rightarrow>
          (let ((nv, nw), g') = calcWeights lib perturb cs sourcePoints destPoints
           in (Inr \<lparr>enginePerturb = perturb, engineReferenceCS = cs,
                    engineNPoints = length sourcePoints,
                    nearestVertex = nv, nearestVertexWeight = nw\<rparr>, g')))"

definition pointToPointPlanarInterpolationCS ::
  "('g, 's) library \<Rightarrow> coordinateSystem \<Rightarrow> vector list \<Rightarrow> vector list \<Rightarrow> real \<Rightarrow> 'g
     \<Rightarrow> (fatalError + engine) \<times> 'g" where
  "pointToPointPlanarInterpolationCS lib referenceCS sourcePoints destPoints perturb g =
     (let ((nv, nw), g') = calcWeights lib perturb referenceCS sourcePoints destPoints
      in (Inr \<lparr>enginePerturb = perturb, engineReferenceCS = referenceCS,
               engineNPoints = length sourcePoints,
               nearestVertex = nv, nearestVertexWeight = nw\<rparr>, g'))"

section \<open>Interpolation weights over a triangulation\<close>

text \<open>
  \<open>calcWeights\<close> obtains the triangulation from \<open>delaunay2D\<close> and the weights
  from \<open>calcInterpolationWeights\<close>, both defined in another file of the library.
  The definitions of this section describe them as the spec does.
\<close>

text \<open>
  Modelled from the spec: the result of \<open>delaunay2D\<close>. A triangulation is a list
  of 2D vertices with a list of triangles, each a triple of vertex indices.
\<close>

record triangulation =
  triVertices :: "vector2D list"
  triTriangles :: "(nat \<times> nat \<times> nat) list"

text \<open>
  Modelled from the spec: the area computation inside \<open>calcInterpolationWeights\<close>.
  \<open>orient a b c\<close> is twice the signed area of the triangle \<open>a\<close>, \<open>b\<close>, \<open>c\<close>.
\<close>

fun orient :: "vector2D \<Rightarrow> vector2D \<Rightarrow> vector2D \<Rightarrow> real" where
  "orient (ax, ay) (bx, by) (cx, cy) = (bx - ax) * (cy - ay) - (cx - ax) * (by - ay)"

text \<open>
  Modelled from the spec: the test for "the containing triangle" inside
  \<open>calcInterpolationWeights\<close>. A point lies in a triangle of non-zero area when
  it is not on the outer side of any of the three edges.
\<close>

definition inTriangle :: "vector2D \<Rightarrow> vector2D \<Rightarrow> vector2D \<Rightarrow> vector2D \<Rightarrow> bool" where
  "inTriangle a b c p =
     (let d = orient a b c
      in d \<noteq> 0 \<and> 0 \<le> orient p b c * d \<and> 0 \<le> orient a p c * d \<and> 0 \<le> orient a b p * d)"

text \<open>
  Modelled from the spec: the "linear (barycentric) interpolation weights against
  that triangle's three vertices" of \<open>calcInterpolationWeights\<close>, as ratios of
  areas.
\<close>

definition barycentric :: "vector2D \<Rightarrow> vector2D \<Rightarrow> vector2D \<Rightarrow> vector2D \<Rightarrow> real \<times> real \<times> real" where
  "barycentric a b c p =
     (let d = orient a b c
      in (orient p b c / d, orient a p c / d, orient a b p / d))"

text \<open>
  Modelled from the spec: the step "locate the containing triangle" of
  \<open>calcInterpolationWeights\<close>: the first triangle of the list, with indices
  inside the vertex list, that the point lies in.
\<close>

definition containingTriangle :: "triangulation \<Rightarrow> vector2D \<Rightarrow> (nat \<times> nat \<times> nat) option" where
  "containingTriangle T p =
     (let vs = triVertices T
      in find (\<lambda>(i, j, k). i < length vs \<and> j < length vs \<and> k < length vs \<and>
                            inTriangle (vs ! i) (vs ! j) (vs ! k) p)
           (triTriangles T))"

text \<open>
  Modelled from the spec: the search for the nearest vertex that
  \<open>calcInterpolationWeights\<close> falls back to outside the hull. \<open>nearestFrom\<close> scans
  the vertices from index \<open>i\<close> on and keeps the index \<open>best\<close> of the nearest
  vertex so far, with its squared distance.
\<close>

definition distSqr2D :: "vector2D \<Rightarrow> vector2D \<Rightarrow> real" where
  "distSqr2D p q = (fst p - fst q) * (fst p - fst q) + (snd p - snd q) * (snd p - snd q)"

fun nearestFrom :: "vector2D \<Rightarrow> nat \<Rightarrow> real \<Rightarrow> nat \<Rightarrow> vector2D list \<Rightarrow> nat" where
  "nearestFrom p best bestD i [] = best"
| "nearestFrom p best bestD i (v # vs) =
     (if distSqr2D v p < bestD then nearestFrom p i (distSqr2D v p) (Suc i) vs
      else nearestFrom p best bestD (Suc i) vs)"

text \<open>
  Modelled from the spec: the weight entry that \<open>calcInterpolationWeights\<close>
  stores for one destination point, a list of pairs of a vertex index and a
  weight: the barycentric weights against the containing triangle, or, for a
  point that no triangle contains, the weight \<open>1\<close> for the nearest vertex.
\<close>

definition weightEntry :: "triangulation \<Rightarrow> vector2D \<Rightarrow> (nat \<times> real) list" where
  "weightEntry T p =
     (let vs = triVertices T
      in case containingTriangle T p of
           Some (i, j, k) \<Rightarrow>
             (let (wi, wj, wk) = barycentric (vs ! i) (vs ! j) (vs ! k) p
              in [(i, wi), (j, wj), (k, wk)])
         | None \<Rightarrow>
             (case vs of
                [] \<Rightarrow> []
              | v # vs' \<Rightarrow> [(nearestFrom p 0 (distSqr2D v p) 1 vs', 1)]))"

text \<open>
  Modelled from the spec: the convex hull of the vertices, which \<open>delaunay2D\<close>
  is to cover. A point is strictly inside the hull of the vertices when it is a
  combination of all of them with positive coefficients that sum to one; a
  triangulation covers the hull of its vertices, as the data model of the spec
  requires, when every such point lies in one of its triangles.
\<close>

definition combination :: "real list \<Rightarrow> vector2D list \<Rightarrow> vector2D" where
  "combination cs vs =
     (sum_list (map2 (\<lambda>c v. c * fst v) cs vs), sum_list (map2 (\<lambda>c v. c * snd v) cs vs))"

definition insideHull :: "vector2D list \<Rightarrow> vector2D \<Rightarrow> bool" where
  "insideHull vs p =
     (\<exists>cs. length cs = length vs \<and> (\<forall>c \<in> set cs. 0 < c) \<and> sum_list cs = 1 \<and>
           p = combination cs vs)"

definition coversHull :: "triangulation \<Rightarrow> bool" where
  "coversHull T =
     (\<forall>p. insideHull (triVertices T) p \<longrightarrow>
          (\<exists>(i, j, k) \<in> set (triTriangles T).
              i < length (triVertices T) \<and> j < length (triVertices T) \<and>
              k < length (triVertices T) \<and>
              inTriangle (triVertices T ! i) (triVertices T ! j) (triVertices T ! k) p))"

section \<open>Properties of \<open>findTime\<close>\<close>

subsection \<open>The scanning loop\<close>

lemma series_eval:
  "findTime (series [0, 1, 2, 5]) 0 3 = Some (True, 2, 3)"
  "findTime (series [0, 1, 2, 5]) 0 6 = Some (True, 3, - 1)"
  "findTime (series [0, 1, 2, 5]) 0 (- 1) = Some (True, 0, 1)"
  "findTime (series [0, 1, 2, 5]) (- 1) (- 1) = Some (False, - 1, - 1)"
  "ascending (series [0, 1, 2, 5])"
  by (simp_all add: findTime_def series_def ascending_def scanTimes.simps)

lemma scanTimes_spec_aux:
  "0 \<le> i \<Longrightarrow> lo = i - 1 \<Longrightarrow>
   \<exists>r. scanTimes tms v i lo = Some r \<and> i - 1 \<le> r \<and> (r < int (length tms) \<or> r = i - 1) \<and>
       (\<forall>j. i \<le> j \<and> j \<le> r \<longrightarrow> instant_value (tms ! nat j) \<le> v) \<and>
       (r + 1 < int (length tms) \<longrightarrow> v < instant_value (tms ! nat (r + 1)))"
proof (induction tms v i lo rule: scanTimes.induct)
  case (1 tms v i lo)
  show ?case
  proof (cases "i < int (length tms) \<and> \<not> instant_value (tms ! nat i) > v")
    case True
    then have rec: "scanTimes tms v i lo = scanTimes tms v (i + 1) i"
      using "1.prems" by (subst scanTimes.simps) simp
    from "1.IH" "1.prems" True
    obtain r where r: "scanTimes tms v (i + 1) i = Some r" "i \<le> r" "r < int (length tms) \<or> r = i"
      "\<forall>j. i + 1 \<le> j \<and> j \<le> r \<longrightarrow> instant_value (tms ! nat j) \<le> v"
      "r + 1 < int (length tms) \<longrightarrow> v < instant_value (tms ! nat (r + 1))"
      by auto
    have "\<forall>j. i \<le> j \<and> j \<le> r \<longrightarrow> instant_value (tms ! nat j) \<le> v"
    proof (intro allI impI)
      fix j assume "i \<le> j \<and> j \<le> r"
      then consider "j = i" | "i + 1 \<le> j \<and> j \<le> r" by linarith
      then show "instant_value (tms ! nat j) \<le> v"
        using True r(4) by cases auto
    qed
    with r rec True show ?thesis by auto
  next
    case False
    then have "scanTimes tms v i lo = Some (i - 1)"
      using "1.prems" by (subst scanTimes.simps) auto
    with False "1.prems" show ?thesis by auto
  qed
qed

lemma scanTimes_spec:
  assumes "- 1 \<le> hint"
  obtains r where "scanTimes tms v (hint + 1) hint = Some r" and "hint \<le> r"
    and "r < int (length tms) \<or> r = hint"
    and "\<And>j. hint < j \<Longrightarrow> j \<le> r \<Longrightarrow> instant_value (tms ! nat j) \<le> v"
    and "r + 1 < int (length tms) \<Longrightarrow> v < instant_value (tms ! nat (r + 1))"
proof -
  from assms have "0 \<le> hint + 1" by simp
  from scanTimes_spec_aux [OF this, of hint tms v]
  obtain r where "scanTimes tms v (hint + 1) hint = Some r" "hint \<le> r"
    "r < int (length tms) \<or> r = hint"
    "\<forall>j. hint + 1 \<le> j \<and> j \<le> r \<longrightarrow> instant_value (tms ! nat j) \<le> v"
    "r + 1 < int (length tms) \<longrightarrow> v < instant_value (tms ! nat (r + 1))"
    by auto
  then show ?thesis by (intro that [of r]) auto
qed

lemma ascending_nth:
  "ascending tms \<Longrightarrow> 0 \<le> i \<Longrightarrow> i \<le> j \<Longrightarrow> j < int (length tms) \<Longrightarrow>
   instant_value (tms ! nat i) \<le> instant_value (tms ! nat j)"
  unfolding ascending_def
  using sorted_nth_mono [of "map instant_value tms" "nat i" "nat j"] by simp


lemma findTime_found_general:
  assumes asc: "ascending tms" and hint: "- 1 \<le> hint"
  shows "\<exists>found lo hi. findTime tms hint v = Some (found, lo, hi) \<and>
           (\<not> found \<longleftrightarrow>
              hint = - 1 \<and> (\<forall>i. 0 \<le> i \<and> i < int (length tms) \<longrightarrow> v < instant_value (tms ! nat i))) \<and>
           (\<not> found \<longrightarrow> lo = - 1 \<and> hi = - 1)"
proof -
  obtain r where r: "scanTimes tms v (hint + 1) hint = Some r" "hint \<le> r"
    "r < int (length tms) \<or> r = hint"
    "\<And>j. hint < j \<Longrightarrow> j \<le> r \<Longrightarrow> instant_value (tms ! nat j) \<le> v"
    "r + 1 < int (length tms) \<Longrightarrow> v < instant_value (tms ! nat (r + 1))"
    using scanTimes_spec [OF hint] by blast
  have "r = - 1 \<longleftrightarrow>
     hint = - 1 \<and> (\<forall>i. 0 \<le> i \<and> i < int (length tms) \<longrightarrow> v < instant_value (tms ! nat i))"
  proof
    assume m: "r = - 1"
    then have h: "hint = - 1" using hint r(2) by simp
    have "v < instant_value (tms ! nat i)" if i: "0 \<le> i" "i < int (length tms)" for i
    proof -
      have "r + 1 < int (length tms)" using m i by auto
      then have "v < instant_value (tms ! nat 0)" using r(5) m by simp
      also have "\<dots> \<le> instant_value (tms ! nat i)"
        using ascending_nth [OF asc _ i(1) i(2)] by simp
      finally show ?thesis .
    qed
    with h show "hint = - 1 \<and> (\<forall>i. 0 \<le> i \<and> i < int (length tms) \<longrightarrow> v < instant_value (tms ! nat i))"
      by blast
  next
    assume a: "hint = - 1 \<and> (\<forall>i. 0 \<le> i \<and> i < int (length tms) \<longrightarrow> v < instant_value (tms ! nat i))"
    show "r = - 1"
    proof (rule ccontr)
      assume "r \<noteq> - 1"
      then have "hint < r" "r < int (length tms)" "0 \<le> r" using a r(2,3) by auto
      then show False using r(4) [of r] a by fastforce
    qed
  qed
  then show ?thesis using r(1) by (auto simp: findTime_def)
qed

lemma scanTimes_agree:
  "length tms' = length tms \<Longrightarrow>
   (\<forall>k < length tms. i \<le> int k \<longrightarrow> tms' ! k = tms ! k) \<Longrightarrow>
   scanTimes tms' v i lo = scanTimes tms v i lo"
proof (induction tms v i lo rule: scanTimes.induct)
  case (1 tms v i lo)
  show ?case
  proof (cases "i < int (length tms) \<and> 0 \<le> i")
    case True
    then have "nat i < length tms" "i \<le> int (nat i)" by linarith+
    then have eq: "tms' ! nat i = tms ! nat i" using "1.prems"(2) by blast
    show ?thesis
    proof (cases "instant_value (tms ! nat i) > v")
      case gt: True
      then show ?thesis
        using True eq "1.prems"(1)
        by (subst scanTimes.simps, subst (2) scanTimes.simps) simp
    next
      case False
      have "scanTimes tms' v (i + 1) i = scanTimes tms v (i + 1) i"
        using "1.IH" True False "1.prems" by simp
      then show ?thesis
        using True False eq "1.prems"(1)
        by (subst scanTimes.simps, subst (2) scanTimes.simps) simp
    qed
  next
    case False
    then show ?thesis
      using "1.prems"(1)
      by (subst scanTimes.simps, subst (2) scanTimes.simps) auto
  qed
qed

lemma findTime_agree:
  assumes "length tms' = length tms"
    and "\<forall>k < length tms. hint < int k \<longrightarrow> tms' ! k = tms ! k"
  shows "findTime tms' hint v = findTime tms hint v"
proof -
  have "scanTimes tms' v (hint + 1) hint = scanTimes tms v (hint + 1) hint"
    using assms by (intro scanTimes_agree) auto
  then show ?thesis unfolding findTime_def assms(1) by simp
qed

lemma scanTimes_None: "i < 0 \<Longrightarrow> scanTimes tms v i lo = None"
  by (subst scanTimes.simps) auto

lemma findTime_lo_ge:
  assumes "findTime tms hint v = Some (found, lo, hi)"
  shows "hint \<le> lo"
proof (cases "- 1 \<le> hint")
  case True
  then obtain r where "scanTimes tms v (hint + 1) hint = Some r" "hint \<le> r"
    using scanTimes_spec [of hint tms v] by blast
  with assms show ?thesis by (auto simp: findTime_def split: if_splits)
next
  case False
  then have "scanTimes tms v (hint + 1) hint = None" by (intro scanTimes_None) simp
  with assms show ?thesis by (simp add: findTime_def)
qed

lemma findTimeChain_agree:
  "length tms' = length tms \<Longrightarrow>
   \<forall>k < length tms. hint < int k \<longrightarrow> tms' ! k = tms ! k \<Longrightarrow>
   findTimeChain tms' hint vs = findTimeChain tms hint vs"
proof (induction vs arbitrary: hint)
  case Nil
  show ?case by simp
next
  case (Cons v vs)
  have eq: "findTime tms' hint v = findTime tms hint v"
    using Cons.prems by (rule findTime_agree)
  show ?case
  proof (cases "findTime tms hint v")
    case None
    with eq show ?thesis by simp
  next
    case (Some res)
    obtain found lo hi where res: "res = (found, lo, hi)" by (cases res)
    have "hint \<le> lo" using Some res findTime_lo_ge by blast
    then have "\<forall>k < length tms. lo < int k \<longrightarrow> tms' ! k = tms ! k"
      using Cons.prems(2) by auto
    then have "findTimeChain tms' lo vs = findTimeChain tms lo vs"
      using Cons.IH Cons.prems(1) by blast
    with eq Some res show ?thesis by simp
  qed
qed

subsection \<open>The bracket that \<open>findTime\<close> returns\<close>




subsection \<open>When \<open>findTime\<close> reports that nothing was found\<close>

text \<open>
  Claim C2, as stated, fails: the hint itself is never compared with the query
  value, so with hint \<open>0\<close> and the value \<open>-1\<close>, below every entry of
  \<open>[0, 1, 2, 5]\<close>, the result is \<open>(true, 0, 1)\<close>.
\<close>

theorem findTime_found_counterexample:
  "ascending (series [0, 1, 2, 5]) \<and>
   findTime (series [0, 1, 2, 5]) 0 (- 1) = Some (True, 0, 1)"
  using series_eval(3,5) by simp

text \<open>
  Claim C2, amended. For an ascending series and a hint that is \<open>-1\<close> or an index,
  \<open>findTime\<close> returns a result (it never fails), and the result is \<open>false\<close>
  exactly when the hint is \<open>-1\<close> and no entry of the series has a time value
  \<open>\<le> v\<close>; then \<open>lo\<close> and \<open>hi\<close> are both \<open>-1\<close>. On \<open>[0, 1, 2, 5]\<close> with hint
  \<open>-1\<close> the value \<open>-1\<close> gives \<open>false\<close>.
\<close>

theorem findTime_found:
  "(ascending tms \<and> - 1 \<le> hint \<longrightarrow>
    (\<exists>found lo hi. findTime tms hint v = Some (found, lo, hi) \<and>
       (\<not> found \<longleftrightarrow>
          hint = - 1 \<and>
          (\<forall>i. 0 \<le> i \<and> i < int (length tms) \<longrightarrow> v < instant_value (tms ! nat i))) \<and>
       (\<not> found \<longrightarrow> lo = - 1 \<and> hi = - 1))) \<and>
   findTime (series [0, 1, 2, 5]) (- 1) (- 1) = Some (False, - 1, - 1)"
  using findTime_found_general [of tms hint v] series_eval(4) by blast

theorem findTime_found_witness:
  "ascending (series [0, 1, 2, 5]) \<and> (- 1 :: int) \<le> - 1 \<and>
   (\<exists>found lo hi. findTime (series [0, 1, 2, 5]) (- 1) (- 1) = Some (found, lo, hi) \<and>
      (\<not> found \<longleftrightarrow>
         (- 1 :: int) = - 1 \<and>
         (\<forall>i. 0 \<le> i \<and> i < int (length (series [0, 1, 2, 5])) \<longrightarrow>
              - 1 < instant_value (series [0, 1, 2, 5] ! nat i))) \<and>
      (\<not> found \<longrightarrow> lo = - 1 \<and> hi = - 1))"
proof -
  have h1: "ascending (series [0, 1, 2, 5])" by (rule series_eval(5))
  have h2: "(- 1 :: int) \<le> - 1" by simp
  from findTime_found [of "series [0, 1, 2, 5]" "- 1" "- 1"] h1 h2 show ?thesis by blast
qed

subsection \<open>Entries at or below the hint are not read\<close>

text \<open>
  Claim C9. \<open>findTime\<close> reads the series only at indices strictly above its hint:
  two series of equal length that agree at every index above the hint give the
  same result. The same holds for a chain of calls in which each call takes the
  \<open>lo\<close> of the previous one as its hint, since a returned \<open>lo\<close> is never below
  the hint it was computed from.
\<close>

theorem findTime_ignores_prefix:
  assumes "length tms' = length tms"
    and "\<forall>k < length tms. hint < int k \<longrightarrow> tms' ! k = tms ! k"
  shows "findTime tms' hint v = findTime tms hint v \<and>
         findTimeChain tms' hint vs = findTimeChain tms hint vs"
  using assms findTime_agree findTimeChain_agree by blast

theorem findTime_ignores_prefix_witness:
  "length (series [7, 9, 2, 5]) = length (series [0, 1, 2, 5]) \<and>
   drop 2 (series [7, 9, 2, 5]) = drop 2 (series [0, 1, 2, 5]) \<and>
   findTime (series [7, 9, 2, 5]) 1 3 = findTime (series [0, 1, 2, 5]) 1 3 \<and>
   findTimeChain (series [7, 9, 2, 5]) 1 [3, 4, 6] = findTimeChain (series [0, 1, 2, 5]) 1 [3, 4, 6] \<and>
   findTimeChain (series [0, 1, 2, 5]) 1 [3, 4, 6] = [Some (True, 2, 3), Some (True, 2, 3), Some (True, 3, - 1)]"
proof -
  have h1: "length (series [7, 9, 2, 5]) = length (series [0, 1, 2, 5])"
    by (simp add: series_def)
  have h2: "\<forall>k < length (series [0, 1, 2, 5]). 1 < int k \<longrightarrow> series [7, 9, 2, 5] ! k = series [0, 1, 2, 5] ! k"
    by (auto simp: series_def nth_Cons split: nat.splits)
  have h3: "findTimeChain (series [0, 1, 2, 5]) 1 [3, 4, 6] = [Some (True, 2, 3), Some (True, 2, 3), Some (True, 3, - 1)]"
    by (simp add: findTime_def series_def scanTimes.simps)
  have h4: "drop 2 (series [7, 9, 2, 5]) = drop 2 (series [0, 1, 2, 5])"
    by (simp add: series_def)
  from findTime_ignores_prefix [OF h1 h2, of 3 "[3, 4, 6]"] h1 h3 h4 show ?thesis by blast
qed

section \<open>Properties of \<open>calcCoordinateSystem\<close>\<close>

subsection \<open>Vector algebra\<close>

lemma dotV_self_nonneg: "0 \<le> dotV v v"
  by (cases v) simp

lemma dotV_self_eq_0: "dotV v v = 0 \<longleftrightarrow> v = zeroV"
  by (cases v) (auto simp: zeroV_def power2_eq_square [symmetric] add_nonneg_eq_0_iff)

lemma mag_nonneg: "0 \<le> mag v"
  by (simp add: mag_def dotV_self_nonneg)

lemma mag_eq_0: "mag v = 0 \<longleftrightarrow> v = zeroV"
  by (simp add: mag_def dotV_self_eq_0)

lemma mag_zeroV: "mag zeroV = 0"
  by (simp add: mag_eq_0)

lemma GREAT_pos: "0 < GREAT"
  by (simp add: GREAT_def)

lemma minusV_self: "minusV v v = zeroV"
  by (cases v) (simp add: zeroV_def)


subsection \<open>The two search loops\<close>

lemma furthest_inv:
  "k = nat (int (length ps) - i) \<Longrightarrow> 1 \<le> i \<Longrightarrow> i \<le> int (length ps) \<Longrightarrow>
   (idx = - 1 \<and> m < 0 \<and> i = 1) \<or>
   (1 \<le> idx \<and> idx < i \<and> m = mag (minusV (ps ! nat idx) p0) \<and>
    e = divV (minusV (ps ! nat idx) p0) m \<and>
    (\<forall>j. 1 \<le> j \<and> j < i \<longrightarrow> mag (minusV (ps ! nat j) p0) \<le> m)) \<Longrightarrow>
   \<exists>e' idx' m'. furthest ps p0 i (e, idx, m) = (e', idx', m') \<and>
     ((idx' = - 1 \<and> int (length ps) = 1 \<and> e' = e) \<or>
      (1 \<le> idx' \<and> idx' < int (length ps) \<and> m' = mag (minusV (ps ! nat idx') p0) \<and>
       e' = divV (minusV (ps ! nat idx') p0) m' \<and>
       (\<forall>j. 1 \<le> j \<and> j < int (length ps) \<longrightarrow> mag (minusV (ps ! nat j) p0) \<le> m')))"
proof (induction k arbitrary: i e idx m)
  case 0
  then have i: "i = int (length ps)" by simp
  then have "furthest ps p0 i (e, idx, m) = (e, idx, m)"
    by (subst furthest.simps) simp
  with 0 i show ?case by auto
next
  case (Suc k)
  then have lt: "i < int (length ps)" by simp
  define d where "d = minusV (ps ! nat i) p0"
  have k: "k = nat (int (length ps) - (i + 1))" using Suc.prems(1) by simp
  have i1: "1 \<le> i + 1" "i + 1 \<le> int (length ps)" using Suc.prems(2) lt by simp_all
  show ?case
  proof (cases "mag d > m")
    case True
    have step: "furthest ps p0 i (e, idx, m) = furthest ps p0 (i + 1) (divV d (mag d), i, mag d)"
      using True lt Suc.prems(2) by (subst furthest.simps) (simp add: d_def Let_def)
    have "\<forall>j. 1 \<le> j \<and> j < i + 1 \<longrightarrow> mag (minusV (ps ! nat j) p0) \<le> mag d"
    proof (intro allI impI)
      fix j assume j: "1 \<le> j \<and> j < i + 1"
      show "mag (minusV (ps ! nat j) p0) \<le> mag d"
      proof (cases "j = i")
        case True then show ?thesis by (simp add: d_def)
      next
        case False
        with j have "j < i" by simp
        with Suc.prems(4) j \<open>mag d > m\<close> show ?thesis by force
      qed
    qed
    then have inv: "(i = - 1 \<and> mag d < 0 \<and> i + 1 = 1) \<or>
      (1 \<le> i \<and> i < i + 1 \<and> mag d = mag (minusV (ps ! nat i) p0) \<and>
       divV d (mag d) = divV (minusV (ps ! nat i) p0) (mag d) \<and>
       (\<forall>j. 1 \<le> j \<and> j < i + 1 \<longrightarrow> mag (minusV (ps ! nat j) p0) \<le> mag d))"
      using Suc.prems(2) by (simp add: d_def)
    from Suc.IH [OF k i1 inv] step lt Suc.prems(2) show ?thesis by auto
  next
    case False
    have step: "furthest ps p0 i (e, idx, m) = furthest ps p0 (i + 1) (e, idx, m)"
      using False lt Suc.prems(2) by (subst furthest.simps) (simp add: d_def Let_def)
    have nonneg: "0 \<le> mag d" by (rule mag_nonneg)
    with False have m0: "\<not> m < 0" by simp
    with Suc.prems(4) have old: "1 \<le> idx" "idx < i" "m = mag (minusV (ps ! nat idx) p0)"
      "e = divV (minusV (ps ! nat idx) p0) m"
      "\<forall>j. 1 \<le> j \<and> j < i \<longrightarrow> mag (minusV (ps ! nat j) p0) \<le> m" by auto
    have "\<forall>j. 1 \<le> j \<and> j < i + 1 \<longrightarrow> mag (minusV (ps ! nat j) p0) \<le> m"
    proof (intro allI impI)
      fix j assume j: "1 \<le> j \<and> j < i + 1"
      show "mag (minusV (ps ! nat j) p0) \<le> m"
      proof (cases "j = i")
        case True then show ?thesis using False by (simp add: d_def)
      next
        case False
        with j have "j < i" by simp
        with old(5) j show ?thesis by blast
      qed
    qed
    with old have inv: "(idx = - 1 \<and> m < 0 \<and> i + 1 = 1) \<or>
      (1 \<le> idx \<and> idx < i + 1 \<and> m = mag (minusV (ps ! nat idx) p0) \<and>
       e = divV (minusV (ps ! nat idx) p0) m \<and>
       (\<forall>j. 1 \<le> j \<and> j < i + 1 \<longrightarrow> mag (minusV (ps ! nat j) p0) \<le> m))"
      by simp
    from Suc.IH [OF k i1 inv] step lt Suc.prems(2) show ?thesis by auto
  qed
qed

lemma furthest_spec:
  assumes "2 \<le> length ps"
  obtains index1 where "1 \<le> index1" and "index1 < int (length ps)"
    and "furthest ps p0 1 (NaNV, - 1, - GREAT) =
           (divV (minusV (ps ! nat index1) p0) (mag (minusV (ps ! nat index1) p0)), index1,
            mag (minusV (ps ! nat index1) p0))"
    and "\<And>j. 1 \<le> j \<Longrightarrow> j < int (length ps) \<Longrightarrow>
           mag (minusV (ps ! nat j) p0) \<le> mag (minusV (ps ! nat index1) p0)"
proof -
  have "(- 1 = (- 1 :: int) \<and> - GREAT < 0 \<and> (1::int) = 1) \<or>
   (1 \<le> (- 1 :: int) \<and> (- 1 :: int) < 1 \<and> - GREAT = mag (minusV (ps ! nat (- 1)) p0) \<and>
    NaNV = divV (minusV (ps ! nat (- 1)) p0) (- GREAT) \<and>
    (\<forall>j. 1 \<le> j \<and> j < 1 \<longrightarrow> mag (minusV (ps ! nat j) p0) \<le> - GREAT))"
    using GREAT_pos by simp
  from furthest_inv [OF refl _ _ this] assms
  obtain e' idx' m' where r: "furthest ps p0 1 (NaNV, - 1, - GREAT) = (e', idx', m')"
    "1 \<le> idx'" "idx' < int (length ps)" "m' = mag (minusV (ps ! nat idx') p0)"
    "e' = divV (minusV (ps ! nat idx') p0) m'"
    "\<forall>j. 1 \<le> j \<and> j < int (length ps) \<longrightarrow> mag (minusV (ps ! nat j) p0) \<le> m'"
    by auto
  show ?thesis
    by (rule that [of idx']) (use r in auto)
qed


lemma furthestFromLine_NaNV:
  "k = nat (int (length ps) - i) \<Longrightarrow>
   furthestFromLine ps p0 NaNV index1 i (index2, m) = (index2, m)"
proof (induction k arbitrary: i)
  case 0
  then show ?case by (subst furthestFromLine.simps) simp
next
  case (Suc k)
  have "k = nat (int (length ps) - (i + 1))" using Suc.prems by simp
  then have "furthestFromLine ps p0 NaNV index1 (i + 1) (index2, m) = (index2, m)"
    by (rule Suc.IH)
  then show ?case
    by (subst furthestFromLine.simps) (auto simp: magE2_def)
qed




subsection \<open>The result of \<open>calcCoordinateSystem\<close>\<close>

lemma calcCoordinateSystem_coincident:
  assumes len: "3 \<le> length ps" and all: "\<forall>j < length ps. ps ! j = ps ! 0"
  shows "calcCoordinateSystem ps = Inl DegenerateGeometry"
proof -
  obtain index1 where i1: "1 \<le> index1" "index1 < int (length ps)"
    and f: "furthest ps (ps ! 0) 1 (NaNV, - 1, - GREAT) =
           (divV (minusV (ps ! nat index1) (ps ! 0)) (mag (minusV (ps ! nat index1) (ps ! 0))), index1,
            mag (minusV (ps ! nat index1) (ps ! 0)))"
    using furthest_spec [of ps "ps ! 0"] len by auto
  have "nat index1 < length ps" using i1 by simp
  then have "ps ! nat index1 = ps ! 0" using all by blast
  then have "mag (minusV (ps ! nat index1) (ps ! 0)) = 0" by (simp add: minusV_self mag_zeroV)
  then have f': "furthest ps (ps ! 0) 1 (NaNV, - 1, - GREAT) = (NaNV, index1, 0)"
    using f by (simp add: divV_def)
  have "furthestFromLine ps (ps ! 0) NaNV index1 1 (- 1, - GREAT) = (- 1, - GREAT)"
    by (rule furthestFromLine_NaNV [OF refl])
  with f' len show ?thesis by (simp add: calcCoordinateSystem_def)
qed





lemmas calcCoordinateSystem_eval =
  calcCoordinateSystem_def furthest.simps furthestFromLine.simps magE2_def
  calcNormal_def divV_def mag_def GREAT_def

subsection \<open>Fewer than three points\<close>

text \<open>
  Claim C8. With fewer than three source points \<open>calcCoordinateSystem\<close> ends with
  the fatal error for insufficient points, and so does the constructor that
  derives the coordinate system: whatever the library operations are, no weight
  is computed and the random-number generator is not touched.
\<close>

theorem calcCoordinateSystem_insufficient:
  assumes "length sourcePoints < 3"
  shows "calcCoordinateSystem sourcePoints = Inl (InsufficientPoints (length sourcePoints)) \<and>
         pointToPointPlanarInterpolation lib sourcePoints destPoints perturb g =
           (Inl (InsufficientPoints (length sourcePoints)), g)"
  using assms by (simp add: calcCoordinateSystem_def pointToPointPlanarInterpolation_def)

theorem calcCoordinateSystem_insufficient_witness:
  "length [Vector 0 0 0, Vector 1 0 0] < 3 \<and>
   calcCoordinateSystem [Vector 0 0 0, Vector 1 0 0] = Inl (InsufficientPoints 2) \<and>
   pointToPointPlanarInterpolation
     \<lparr>localPosition = (\<lambda>cs ps. ps), boundBox = (\<lambda>ps. (zeroV, zeroV)),
      Random = (\<lambda>seed. seed), position = (\<lambda>g a b. (a, g + 1)),
      delaunay2D = (\<lambda>vs. vs), calcInterpolationWeights = (\<lambda>s ps. ([], []))\<rparr>
     [Vector 0 0 0, Vector 1 0 0] [Vector 0 0 0] (1 / 10) (7 :: int) =
     (Inl (InsufficientPoints 2), 7)"
proof -
  have h: "length [Vector 0 0 0, Vector 1 0 0] < 3" by simp
  from calcCoordinateSystem_insufficient [OF h, of _ "[Vector 0 0 0]" "1 / 10" 7] h
  show ?thesis by (simp add: numeral_2_eq_2)
qed

subsection \<open>Colinear points\<close>

text \<open>
  Claim C1 asks for the fatal error for degenerate geometry when all points are
  colinear. For the colinear points \<open>(0,0,0)\<close>, \<open>(1,0,0)\<close>, \<open>(2,0,0)\<close> the
  function returns a coordinate system instead: the point \<open>(1,0,0)\<close>, whose
  orthogonal part has magnitude \<open>0 > -GREAT\<close>, is accepted as the third point,
  and the normal is the zero vector divided by its magnitude.
\<close>

theorem calcCoordinateSystem_colinear_returns:
  "calcCoordinateSystem [Vector 0 0 0, Vector 1 0 0, Vector 2 0 0] =
     Inr \<lparr>origin = Vector 0 0 0, normal = NaNV, axis = Fin (Vector 1 0 0)\<rparr>"
  by (simp add: calcCoordinateSystem_eval)

text \<open>
  Claim C10 says that the branch for degenerate geometry cannot be reached with
  three or more points. It is reached when all points coincide: then \<open>e1\<close> is
  \<open>0/0\<close>, every \<open>magE2\<close> is NaN, and no comparison \<open>magE2 > maxDist\<close> holds.
\<close>

theorem calcCoordinateSystem_degenerate_counterexample:
  "calcCoordinateSystem [Vector 0 0 0, Vector 0 0 0, Vector 0 0 0] = Inl DegenerateGeometry"
  by (simp add: calcCoordinateSystem_eval)

text \<open>
  Claim C10, amended. The branch for degenerate geometry can be reached: with at
  least three points that all coincide with the first one, \<open>e1\<close> is \<open>0/0\<close>, no
  comparison \<open>magE2 > maxDist\<close> holds, and \<open>calcCoordinateSystem\<close> ends with the
  fatal error. Colinearity as such does not lead there, because a candidate
  whose orthogonal part is exactly zero passes the comparison with
  \<open>maxDist = -GREAT\<close>: for the points \<open>(0,0,0)\<close>, \<open>(0,1,0)\<close>, \<open>(0,2,0)\<close> the
  second index is assigned and the function goes on to divide the zero vector
  \<open>n = e1 ^ (points[index2] - p0)\<close> by its magnitude \<open>0\<close>.
\<close>

theorem calcCoordinateSystem_degenerate_reached:
  "(3 \<le> length ps \<and> (\<forall>j < length ps. ps ! j = ps ! 0) \<longrightarrow>
      calcCoordinateSystem ps = Inl DegenerateGeometry) \<and>
   calcCoordinateSystem [Vector 0 0 0, Vector 0 1 0, Vector 0 2 0] =
     Inr \<lparr>origin = Vector 0 0 0, normal = NaNV, axis = Fin (Vector 0 1 0)\<rparr>"
proof -
  have "calcCoordinateSystem [Vector 0 0 0, Vector 0 1 0, Vector 0 2 0] =
     Inr \<lparr>origin = Vector 0 0 0, normal = NaNV, axis = Fin (Vector 0 1 0)\<rparr>"
    by (simp add: calcCoordinateSystem_eval)
  then show ?thesis using calcCoordinateSystem_coincident [of ps] by blast
qed

theorem calcCoordinateSystem_degenerate_reached_witness:
  "3 \<le> length [Vector 1 2 3, Vector 1 2 3, Vector 1 2 3, Vector 1 2 3] \<and>
   calcCoordinateSystem [Vector 1 2 3, Vector 1 2 3, Vector 1 2 3, Vector 1 2 3] =
     Inl DegenerateGeometry"
proof -
  let ?ps = "[Vector 1 2 3, Vector 1 2 3, Vector 1 2 3, Vector 1 2 3]"
  have h1: "3 \<le> length ?ps" by simp
  have h2: "\<forall>j < length ?ps. ?ps ! j = ?ps ! 0"
    by (simp add: nth_Cons split: nat.splits)
  from calcCoordinateSystem_degenerate_reached [of ?ps] h1 h2 show ?thesis by blast
qed

subsection \<open>The points that define the frame\<close>



section \<open>Properties of the interpolation weights\<close>

lemma orient_sum: "orient p b c + orient a p c + orient a b p = orient a b c"
  by (cases p; cases a; cases b; cases c) (simp add: algebra_simps)

lemma ratio_nonneg:
  fixes x d :: real
  assumes "d \<noteq> 0" and "0 \<le> x * d"
  shows "0 \<le> x / d"
  using assms by (auto simp: zero_le_mult_iff zero_le_divide_iff)

lemma barycentric_inTriangle:
  assumes "inTriangle a b c p" and "barycentric a b c p = (wa, wb, wc)"
  shows "0 \<le> wa \<and> 0 \<le> wb \<and> 0 \<le> wc \<and> wa + wb + wc = 1"
proof -
  define d where "d = orient a b c"
  from assms(1) have d: "d \<noteq> 0" and s: "0 \<le> orient p b c * d" "0 \<le> orient a p c * d"
    "0 \<le> orient a b p * d"
    by (simp_all add: inTriangle_def Let_def d_def)
  from assms(2) have w: "wa = orient p b c / d" "wb = orient a p c / d" "wc = orient a b p / d"
    by (simp_all add: barycentric_def Let_def d_def)
  have "wa + wb + wc = (orient p b c + orient a p c + orient a b p) / d"
    by (simp add: w add_divide_distrib)
  also have "\<dots> = 1" using d by (simp add: orient_sum d_def)
  finally show ?thesis using ratio_nonneg [OF d] s w by simp
qed

lemma weightEntry_inside_aux:
  assumes cov: "coversHull T" and ins: "insideHull (triVertices T) p"
  shows "(\<forall>(i, w) \<in> set (weightEntry T p). i < length (triVertices T) \<and> 0 \<le> w) \<and>
         sum_list (map snd (weightEntry T p)) = 1"
proof -
  define vs where "vs = triVertices T"
  define P where "P = (\<lambda>(i, j, k). i < length vs \<and> j < length vs \<and> k < length vs \<and>
                            inTriangle (vs ! i) (vs ! j) (vs ! k) p)"
  from cov ins have "\<exists>t \<in> set (triTriangles T). P t"
    unfolding coversHull_def P_def vs_def by blast
  then have "find P (triTriangles T) \<noteq> None" unfolding find_None_iff by blast
  then obtain t where t: "find P (triTriangles T) = Some t" by blast
  then have Pt: "P t" by (auto simp: find_Some_iff)
  obtain i j k where ijk: "t = (i, j, k)" by (cases t)
  from Pt ijk have r: "i < length vs" "j < length vs" "k < length vs"
    and tri: "inTriangle (vs ! i) (vs ! j) (vs ! k) p" by (simp_all add: P_def)
  obtain wi wj wk where w: "barycentric (vs ! i) (vs ! j) (vs ! k) p = (wi, wj, wk)"
    by (cases "barycentric (vs ! i) (vs ! j) (vs ! k) p")
  have ct: "containingTriangle T p = Some (i, j, k)"
    using t ijk by (simp add: containingTriangle_def Let_def vs_def P_def)
  have e: "weightEntry T p = [(i, wi), (j, wj), (k, wk)]"
    using ct w by (simp add: weightEntry_def Let_def vs_def)
  from barycentric_inTriangle [OF tri w] r show ?thesis
    by (simp add: e vs_def)
qed

lemma coversHull_T0:
  "coversHull \<lparr>triVertices = [(0, 0), (1, 0), (0, 1)], triTriangles = [(0, 1, 2)]\<rparr>"
proof -
  have "inTriangle (0, 0) (1, 0) (0, 1) p" if "insideHull [(0, 0), (1, 0), (0, 1)] p" for p
  proof -
    from that obtain cs where cs0: "length cs = length [(0 :: real, 0 :: real), (1, 0), (0, 1)]"
      and cs': "\<forall>c \<in> set cs. 0 < c" "sum_list cs = 1"
      "p = combination cs [(0, 0), (1, 0), (0, 1)]"
      unfolding insideHull_def by blast
    from cs0 have "length cs = 3" by simp
    note cs = this cs'
    from cs(1) obtain c0 c1 c2 where l: "cs = [c0, c1, c2]"
      by (auto simp: length_Suc_conv numeral_3_eq_3)
    from cs l have "p = (c1, c2)" "0 < c0" "0 < c1" "0 < c2" "c0 + c1 + c2 = 1"
      by (simp_all add: combination_def)
    then show ?thesis by (simp add: inTriangle_def algebra_simps)
  qed
  then show ?thesis by (simp add: coversHull_def)
qed

lemma insideHull_T0: "insideHull [(0, 0), (1, 0), (0, 1)] (1 / 4, 1 / 4)"
  unfolding insideHull_def
  by (rule exI [of _ "[1 / 2, 1 / 4, 1 / 4]"]) (simp add: combination_def)

lemma weightEntry_T0:
  "weightEntry \<lparr>triVertices = [(0, 0), (1, 0), (0, 1)], triTriangles = [(0, 1, 2)]\<rparr> (1 / 4, 1 / 4)
     = [(0, 1 / 2), (1, 1 / 4), (2, 1 / 4)]"
  by (simp add: weightEntry_def containingTriangle_def inTriangle_def barycentric_def)

text \<open>
  Claim C4, for the weights as the spec describes them. When the triangulation
  covers the convex hull of its vertices, the weight entry of a destination
  point strictly inside the hull refers to vertices of the triangulation, its
  weights are all non-negative, and they sum to one (so also within \<open>1e-6\<close> of
  one).
\<close>

theorem weightEntry_inside:
  assumes "coversHull T" and "insideHull (triVertices T) p"
  shows "(\<forall>(i, w) \<in> set (weightEntry T p). i < length (triVertices T) \<and> 0 \<le> w) \<and>
         \<bar>sum_list (map snd (weightEntry T p)) - 1\<bar> \<le> 1 / 1000000 \<and>
         sum_list (map snd (weightEntry T p)) = 1"
  using weightEntry_inside_aux [OF assms] by simp

theorem weightEntry_inside_witness:
  "coversHull \<lparr>triVertices = [(0, 0), (1, 0), (0, 1)], triTriangles = [(0, 1, 2)]\<rparr> \<and>
   insideHull [(0, 0), (1, 0), (0, 1)] (1 / 4, 1 / 4) \<and>
   weightEntry \<lparr>triVertices = [(0, 0), (1, 0), (0, 1)], triTriangles = [(0, 1, 2)]\<rparr> (1 / 4, 1 / 4)
     = [(0, 1 / 2), (1, 1 / 4), (2, 1 / 4)] \<and>
   \<bar>sum_list (map snd (weightEntry
       \<lparr>triVertices = [(0, 0), (1, 0), (0, 1)], triTriangles = [(0, 1, 2)]\<rparr> (1 / 4, 1 / 4))) - 1\<bar>
     \<le> 1 / 1000000"
proof -
  let ?T = "\<lparr>triVertices = [(0 :: real, 0 :: real), (1, 0), (0, 1)], triTriangles = [(0, 1, 2)]\<rparr>"
  have h1: "coversHull ?T" by (rule coversHull_T0)
  have h2: "insideHull (triVertices ?T) (1 / 4, 1 / 4)" using insideHull_T0 by simp
  from weightEntry_inside [OF h1 h2] h1 insideHull_T0 weightEntry_T0 show ?thesis by blast
qed

end
